theory Spec2Isabelle
  imports Main
begin

section \<open>JSON values and the helpers the publish command takes from JavaScript\<close>

text \<open>
  A decoded JSON value. An object is the list of its properties, one entry per key.
\<close>

datatype json =
    JNull
  | JBool bool
  | JNum int
  | JStr string
  | JArr "json list"
  | JObj "(string \<times> json) list"

text \<open>Property read \<open>v[k]\<close>; \<open>None\<close> is JavaScript's \<open>undefined\<close>.\<close>

definition js_prop :: "json \<Rightarrow> string \<Rightarrow> json option" where
  "js_prop v k = (case v of JObj kvs \<Rightarrow> map_of kvs k | _ \<Rightarrow> None)"

text \<open>
  \<open>objectPath.get(obj, path, defaultValue)\<close> of the object-path package: walk the path
  segments, and give the third argument back when a segment is undefined. The path
  \<open>'schema'\<close> of the publish command has the single segment \<open>schema\<close>.
\<close>

fun objectPath_get :: "json \<Rightarrow> string list \<Rightarrow> json \<Rightarrow> json" where
  "objectPath_get obj [] dflt = obj"
| "objectPath_get obj (k # ks) dflt =
     (case js_prop obj k of None \<Rightarrow> dflt | Some v \<Rightarrow> objectPath_get v ks dflt)"

text \<open>
  \<open>Array.prototype.slice(begin, end)\<close>: a negative index counts from the end of the
  array, both indices are clamped to the array, and an empty range gives the empty array.
\<close>

definition js_slice :: "'a list \<Rightarrow> int \<Rightarrow> int \<Rightarrow> 'a list" where
  "js_slice xs b e =
     (let n = int (length xs);
          k = (if b < 0 then max (n + b) 0 else min b n);
          f = (if e < 0 then max (n + e) 0 else min e n)
      in take (nat (f - k)) (drop (nat k) xs))"

text \<open>Indexed read \<open>xs[i]\<close>, \<open>undefined\<close> out of range.\<close>

definition js_index :: "'a list \<Rightarrow> nat \<Rightarrow> 'a option" where
  "js_index xs i = (if i < length xs then Some (xs ! i) else None)"

text \<open>Decimal rendering of a length inside a template string.\<close>

fun digit_char :: "nat \<Rightarrow> char" where
  "digit_char n = (''0123456789'' ! (n mod 10))"

fun show_nat :: "nat \<Rightarrow> string" where
  "show_nat n = (if n < 10 then [digit_char n] else show_nat (n div 10) @ [digit_char n])"

declare show_nat.simps [simp del]

section \<open>The publish command: data\<close>

record publish_opts =
  namespace :: string
  compound :: "int option"

text \<open>
  The options of \<open>publishStream\<close> that decide its behaviour. \<open>validate\<close> (with the fetched
  schema already applied; \<open>Some msg\<close> is a failed result with its message) and
  \<open>isSelfDescribingRecord\<close> come from the metadata module and are parameters here.
\<close>

record config =
  batchSize :: int
  dryRun :: bool
  skipSchemaValidation :: bool
  publishOpts :: publish_opts
  schemaReference :: string
  validate :: "json \<Rightarrow> string option"
  isSelfDescribingRecord :: "json \<Rightarrow> bool"

text \<open>
  One chunk emitted by the jq transform: either text \<open>JSON.parse\<close> rejects, or a parsed
  value with its \<open>wki\<close> (\<open>None\<close> when null or undefined) and \<open>obj\<close> properties.
\<close>

datatype jq_output = Unparseable string | Parsed "string option" json

record stmt =
  object :: json
  refs :: "string list"
  tags :: "string list"

text \<open>The errors thrown inside the data handler; each one ends the run.\<close>

datatype error =
    JqParseError string
  | ValidationFailed string json
  | UnableToExtractId json
  | DifferentSchema json string

text \<open>One member of a printed report entry; \<open>body_object\<close> is \<open>objectRefs[idx]\<close>.\<close>

record body =
  body_object :: "string option"
  body_refs :: "string list"
  body_tags :: "string list"

text \<open>What the command writes to the console.\<close>

datatype console_line =
    DryRunLine "string list" "string list"
  | StatementId string
  | Bodies "body list"
  | AllPublished
  | PublishError string

text \<open>
  The mutable variables of \<open>publishStream\<close>. An element of \<open>publishPromises\<close> records the
  two arrays its \<open>publishBatch\<close> invocation was given; the invocation issues the storage
  request for the first array at once.
\<close>

record run_state =
  statementBodies :: "json list"
  statements :: "stmt list"
  publishPromises :: "(json list \<times> stmt list) list"
  console :: "console_line list"

definition init_state :: run_state where
  "init_state = \<lparr>statementBodies = [], statements = [], publishPromises = [], console = []\<rparr>"

section \<open>The publish command: ingestion\<close>

definition wrap_object :: "string \<Rightarrow> json \<Rightarrow> json" where
  "wrap_object ref obj = JObj [(''schema'', JObj [(''/'', JStr ref)]), (''data'', obj)]"

text \<open>The handler of the \<open>data\<close> event. A thrown error is \<open>Inl\<close>.\<close>

definition on_data :: "config \<Rightarrow> run_state \<Rightarrow> jq_output \<Rightarrow> error + run_state" where
  "on_data cfg st item =
     (case item of
        Unparseable s \<Rightarrow> Inl (JqParseError s)
      | Parsed wki obj \<Rightarrow>
          (case (if skipSchemaValidation cfg then None else validate cfg obj) of
             Some msg \<Rightarrow> Inl (ValidationFailed msg obj)
           | None \<Rightarrow>
               (case wki of
                  None \<Rightarrow> Inl (UnableToExtractId obj)
                | Some w \<Rightarrow>
                    if length w < 1 then Inl (UnableToExtractId obj)
                    else
                      let ref = objectPath_get obj [''schema''] (JStr ''/'') in
                      if isSelfDescribingRecord cfg obj \<and> ref \<noteq> JStr (schemaReference cfg)
                      then Inl (DifferentSchema ref (schemaReference cfg))
                      else
                        let selfDescribingObj =
                              (if isSelfDescribingRecord cfg obj then obj
                               else wrap_object (schemaReference cfg) obj);
                            rs = [w];
                            ts = []
                        in
                          if dryRun cfg
                          then Inr (st\<lparr>console := console st @ [DryRunLine rs ts]\<rparr>)
                          else
                            let s = \<lparr>object = selfDescribingObj, refs = rs, tags = ts\<rparr>;
                                bodies = statementBodies st @ [obj];
                                stmts = statements st @ [s]
                            in
                              if int (length bodies) \<ge> batchSize cfg
                              then Inr (st\<lparr>statementBodies := [], statements := [],
                                          publishPromises := publishPromises st @ [(bodies, stmts)]\<rparr>)
                              else Inr (st\<lparr>statementBodies := bodies, statements := stmts\<rparr>))))"

text \<open>
  The stream delivers the chunks one by one; an error thrown by the handler is uncaught
  and ends the process, with the state as it was when the chunk arrived.
\<close>

fun feed :: "config \<Rightarrow> run_state \<Rightarrow> jq_output list \<Rightarrow> (error \<times> run_state) + run_state" where
  "feed cfg st [] = Inr st"
| "feed cfg st (x # xs) =
     (case on_data cfg st x of Inl e \<Rightarrow> Inl (e, st) | Inr st' \<Rightarrow> feed cfg st' xs)"

text \<open>The handler of the \<open>end\<close> event, up to the call of \<open>Promise.all\<close>.\<close>

definition on_end :: "run_state \<Rightarrow> run_state" where
  "on_end st =
     (if length (statementBodies st) > 0
      then st\<lparr>publishPromises := publishPromises st @ [(statementBodies st, statements st)]\<rparr>
      else st)"

definition publishStream :: "config \<Rightarrow> jq_output list \<Rightarrow> (error \<times> run_state) + run_state" where
  "publishStream cfg items =
     (case feed cfg init_state items of Inl a \<Rightarrow> Inl a | Inr st \<Rightarrow> Inr (on_end st))"

section \<open>The publish command: one batch\<close>

text \<open>
  The remote node's answers to the two requests of one batch: \<open>Inl msg\<close> is a rejection
  with that message, \<open>Inr xs\<close> the returned array.
\<close>

record reply =
  putData_reply :: "string + string list"
  publish_reply :: "string + string list"

datatype net_call = PutData "json list" | Publish publish_opts "stmt list"

text \<open>
  What one \<open>publishBatch\<close> invocation does: the requests it sends, what it prints, and how
  its promise settles (\<open>None\<close> fulfilled, \<open>Some msg\<close> rejected with that message).
\<close>

record batch_result =
  calls :: "net_call list"
  printed :: "console_line list"
  outcome :: "string option"

definition printBatchResults ::
  "string list \<Rightarrow> string list \<Rightarrow> stmt list \<Rightarrow> int \<Rightarrow> console_line list" where
  "printBatchResults bodyHashes statementIds stmts compoundSize =
     concat (map (\<lambda>i.
        let objectRefs = js_slice bodyHashes (int i) (int i + compoundSize);
            ss = js_slice stmts (int i) (int i + compoundSize);
            bodies = map (\<lambda>(s, idx). \<lparr>body_object = js_index objectRefs idx,
                                       body_refs = refs s, body_tags = tags s\<rparr>)
                         (zip ss [0..<length ss])
        in [StatementId (statementIds ! i), Bodies bodies])
      [0..<length statementIds])"

definition count_mismatch :: "nat \<Rightarrow> nat \<Rightarrow> string" where
  "count_mismatch expected received =
     ''Expected '' @ show_nat expected @ '' results from putting data blobs, received ''
       @ show_nat received"

text \<open>\<open>publishOpts.compound || 1\<close>: an absent and a zero option both give 1.\<close>

definition compound_or_1 :: "publish_opts \<Rightarrow> int" where
  "compound_or_1 po = (case compound po of None \<Rightarrow> 1 | Some c \<Rightarrow> if c = 0 then 1 else c)"

definition publishBatch ::
  "publish_opts \<Rightarrow> json list \<Rightarrow> stmt list \<Rightarrow> reply \<Rightarrow> batch_result" where
  "publishBatch po bodies stmts rp =
     (case putData_reply rp of
        Inl msg \<Rightarrow> \<lparr>calls = [PutData bodies], printed = [], outcome = Some msg\<rparr>
      | Inr bodyHashes \<Rightarrow>
          if length bodyHashes \<noteq> length stmts
          then \<lparr>calls = [PutData bodies], printed = [],
                outcome = Some (count_mismatch (length stmts) (length bodyHashes))\<rparr>
          else
            let stmts' = map (\<lambda>(s, i). s\<lparr>object := JStr (bodyHashes ! i)\<rparr>)
                             (zip stmts [0..<length stmts])
            in (case publish_reply rp of
                  Inl msg \<Rightarrow> \<lparr>calls = [PutData bodies, Publish po stmts'], printed = [],
                              outcome = Some msg\<rparr>
                | Inr statementIds \<Rightarrow>
                    \<lparr>calls = [PutData bodies, Publish po stmts'],
                     printed = printBatchResults bodyHashes statementIds stmts' (compound_or_1 po),
                     outcome = None\<rparr>))"

section \<open>The publish command: the join of the batches\<close>

text \<open>
  \<open>Promise.all(publishPromises).then(...).catch(...)\<close>, as a machine that reads the batch
  promises' settlements in the order their reactions run. While it waits for \<open>k\<close> more
  fulfilments it is \<open>Pending k\<close>; the first rejection it reads rejects it, the last
  fulfilment resolves it, and after either it ignores what follows.
\<close>

datatype join_state = Pending nat | Finished

fun join_step :: "bool \<Rightarrow> join_state \<Rightarrow> string option \<Rightarrow> join_state \<times> console_line list" where
  "join_step d Finished r = (Finished, [])"
| "join_step d (Pending k) (Some msg) = (Finished, [PublishError msg])"
| "join_step d (Pending k) None =
     (if k \<le> 1 then (Finished, if d then [] else [AllPublished]) else (Pending (k - 1), []))"

text \<open>The trace of the join: each settlement it reads, and each line it prints.\<close>

datatype event = Settled nat "string option" | Printed console_line

fun join_run :: "bool \<Rightarrow> join_state \<Rightarrow> (nat \<times> string option) list \<Rightarrow> event list" where
  "join_run d s [] = []"
| "join_run d s ((i, r) # es) =
     (case join_step d s r of (s', out) \<Rightarrow> Settled i r # map Printed out @ join_run d s' es)"

text \<open>\<open>Promise.all\<close> of no promise at all is fulfilled at once.\<close>

definition join_all :: "bool \<Rightarrow> nat \<Rightarrow> (nat \<times> string option) list \<Rightarrow> event list" where
  "join_all d n es =
     (if n = 0 then map Printed (if d then [] else [AllPublished]) @ join_run d Finished es
      else join_run d (Pending n) es)"

text \<open>
  The invocations of \<open>publishBatch\<close> that a run has made, each with the reply the remote
  node gives to that batch; \<open>replies i\<close> is the reply to the batch flushed as number \<open>i\<close>.
\<close>

definition batch_results :: "config \<Rightarrow> run_state \<Rightarrow> (nat \<Rightarrow> reply) \<Rightarrow> batch_result list" where
  "batch_results cfg st replies =
     map (\<lambda>(i, (bodies, stmts)). publishBatch (publishOpts cfg) bodies stmts (replies i))
         (enumerate 0 (publishPromises st))"

text \<open>
  \<open>order\<close> lists the batches in the order in which the join reads their settlements; a
  batch that never settles is not in it. Each one settles as its invocation decided.
\<close>

definition settlements :: "batch_result list \<Rightarrow> nat list \<Rightarrow> (nat \<times> string option) list" where
  "settlements rs order = map (\<lambda>i. (i, outcome (rs ! i))) (filter (\<lambda>i. i < length rs) order)"

text \<open>The call of \<open>Promise.all\<close> at the end of the \<open>end\<close> handler, for the state it is made in.\<close>

definition run_join :: "config \<Rightarrow> run_state \<Rightarrow> (nat \<Rightarrow> reply) \<Rightarrow> nat list \<Rightarrow> event list" where
  "run_join cfg st replies order =
     join_all (dryRun cfg) (length (publishPromises st))
       (settlements (batch_results cfg st replies) order)"

section \<open>The publish command: batches settling while the stream is read\<close>

text \<open>
  The command attaches its only rejection handler inside the \<open>end\<close> handler. A batch
  promise that is rejected earlier has no handler at that moment, and what happens then
  is decided by the runtime and not by the command: it reports the rejection and goes
  on, or it ends the process.
\<close>

datatype unhandled_rejections = Warn | Terminate

text \<open>How a run ends early: by an error thrown in the data handler, or by the runtime.\<close>

datatype stop = Thrown error | Unhandled string

text \<open>
  What happens while the stream is read: a chunk arrives, or the promise of the batch
  flushed as number \<open>i\<close> settles.
\<close>

datatype stream_event = Data jq_output | Settles nat


text \<open>
  The stream being read with batches settling in between. No handler of the command
  runs when a batch settles before the end of the input: a fulfilled batch prints its
  report (recorded in its \<open>batch_result\<close>), and a rejected one is left to the runtime.
  Neither touches the buffer or the list of flushed batches.
\<close>

fun ingest ::
  "unhandled_rejections \<Rightarrow> config \<Rightarrow> (nat \<Rightarrow> reply) \<Rightarrow> run_state \<Rightarrow> stream_event list
     \<Rightarrow> (stop \<times> run_state) + run_state" where
  "ingest pol cfg replies st [] = Inr st"
| "ingest pol cfg replies st (Data x # evs) =
     (case on_data cfg st x of
        Inl e \<Rightarrow> Inl (Thrown e, st)
      | Inr st' \<Rightarrow> ingest pol cfg replies st' evs)"
| "ingest pol cfg replies st (Settles i # evs) =
     (case js_index (batch_results cfg st replies) i of
        None \<Rightarrow> ingest pol cfg replies st evs
      | Some r \<Rightarrow>
          (case outcome r of
             None \<Rightarrow> ingest pol cfg replies st evs
           | Some msg \<Rightarrow>
               if pol = Terminate then Inl (Unhandled msg, st)
               else ingest pol cfg replies st evs))"

definition publishStream_live ::
  "unhandled_rejections \<Rightarrow> config \<Rightarrow> (nat \<Rightarrow> reply) \<Rightarrow> stream_event list
     \<Rightarrow> (stop \<times> run_state) + run_state" where
  "publishStream_live pol cfg replies evs =
     (case ingest pol cfg replies init_state evs of Inl a \<Rightarrow> Inl a | Inr st \<Rightarrow> Inr (on_end st))"

section \<open>The putData command\<close>

text \<open>
  The variables of the \<open>putData\<close> handler: the buffer \<open>items\<close> and the storage requests
  sent so far. The command registers a \<open>data\<close> and an \<open>error\<close> handler only.
\<close>

record put_state =
  items :: "json list"
  put_calls :: "json list list"

definition put_on_data :: "int \<Rightarrow> put_state \<Rightarrow> json \<Rightarrow> put_state" where
  "put_on_data bsize st obj =
     (let its = items st @ [obj]
      in if int (length its) \<ge> bsize
         then \<lparr>items = [], put_calls = put_calls st @ [its]\<rparr>
         else \<lparr>items = its, put_calls = put_calls st\<rparr>)"

definition putData_handler :: "int \<Rightarrow> json list \<Rightarrow> put_state" where
  "putData_handler bsize objs = foldl (put_on_data bsize) \<lparr>items = [], put_calls = []\<rparr> objs"

section \<open>Terms for stating the properties of the publish command\<close>


text \<open>The array \<open>[wki]\<close> built for a chunk that has an identifier.\<close>

fun item_refs :: "jq_output \<Rightarrow> string list" where
  "item_refs (Parsed (Some w) obj) = [w]"
| "item_refs _ = []"

text \<open>The statement built for a chunk with identifier \<open>w\<close> and payload \<open>obj\<close>.\<close>

definition draft :: "config \<Rightarrow> string \<Rightarrow> json \<Rightarrow> stmt" where
  "draft cfg w obj =
     \<lparr>object = (if isSelfDescribingRecord cfg obj then obj else wrap_object (schemaReference cfg) obj),
      refs = [w], tags = []\<rparr>"

text \<open>The two arrays of the buffer and of every flushed batch have the same length.\<close>

definition aligned :: "run_state \<Rightarrow> bool" where
  "aligned st \<longleftrightarrow>
     length (statements st) = length (statementBodies st)
     \<and> (\<forall>b\<in>set (publishPromises st). length (snd b) = length (fst b))"

text \<open>No statement in the buffer or in a flushed batch has a tag.\<close>

definition untagged :: "run_state \<Rightarrow> bool" where
  "untagged st \<longleftrightarrow>
     (\<forall>s\<in>set (statements st). tags s = [])
     \<and> (\<forall>b\<in>set (publishPromises st). \<forall>s\<in>set (snd b). tags s = [])"

text \<open>Reading a decimal numeral back: the value of a digit, and of a string of digits.\<close>

definition digit_value :: "char \<Rightarrow> nat" where
  "digit_value c = of_char c - 48"

definition read_nat :: "string \<Rightarrow> nat" where
  "read_nat s = foldl (\<lambda>a c. 10 * a + digit_value c) 0 s"

text \<open>The lines a trace prints, and the part of a trace before the success message.\<close>

fun printed_lines :: "event list \<Rightarrow> console_line list" where
  "printed_lines [] = []"
| "printed_lines (Printed l # es) = l # printed_lines es"
| "printed_lines (Settled i r # es) = printed_lines es"

definition before_success :: "event list \<Rightarrow> event list" where
  "before_success tr = takeWhile (\<lambda>e. e \<noteq> Printed AllPublished) tr"

section \<open>Concrete inputs used in the examples\<close>

text \<open>Four statements whose objects have been rewritten to the addresses h0 to h3.\<close>

definition example_stmts :: "stmt list" where
  "example_stmts =
     [\<lparr>object = JStr ''h0'', refs = [''a''], tags = []\<rparr>,
      \<lparr>object = JStr ''h1'', refs = [''b''], tags = []\<rparr>,
      \<lparr>object = JStr ''h2'', refs = [''c''], tags = []\<rparr>,
      \<lparr>object = JStr ''h3'', refs = [''d''], tags = []\<rparr>]"


text \<open>
  A run with batch size 2 on three records, validation accepting everything, and a record
  counting as self-describing when it has a \<open>schema\<close> property.
\<close>

definition example_config :: config where
  "example_config =
     \<lparr>batchSize = 2, dryRun = False, skipSchemaValidation = False,
      publishOpts = \<lparr>namespace = ''ns'', compound = None\<rparr>,
      schemaReference = ''Qm1'',
      validate = (\<lambda>obj. None),
      isSelfDescribingRecord = (\<lambda>obj. case js_prop obj ''schema'' of None \<Rightarrow> False | Some v \<Rightarrow> True)\<rparr>"

definition example_items :: "jq_output list" where
  "example_items = [Parsed (Some ''1'') (JNum 1), Parsed (Some ''2'') (JNum 2), Parsed (Some ''3'') (JNum 3)]"

text \<open>The state of that run after the \<open>end\<close> handler.\<close>

definition example_final :: run_state where
  "example_final =
     \<lparr>statementBodies = [JNum 3],
      statements = [draft example_config ''3'' (JNum 3)],
      publishPromises =
        [([JNum 1, JNum 2], [draft example_config ''1'' (JNum 1), draft example_config ''2'' (JNum 2)]),
         ([JNum 3], [draft example_config ''3'' (JNum 3)])],
      console = []\<rparr>"

text \<open>The state of that run when only the first record has arrived.\<close>

definition example_buffered :: run_state where
  "example_buffered =
     \<lparr>statementBodies = [JNum 1], statements = [draft example_config ''1'' (JNum 1)],
      publishPromises = [], console = []\<rparr>"

text \<open>A self-describing record that refers to another schema than the run's.\<close>

definition example_foreign :: json where
  "example_foreign = JObj [(''schema'', JObj [(''/'', JStr ''Qm2'')]), (''data'', JNum 2)]"

text \<open>Replies of the remote node: two addresses and two ids; and one address only.\<close>

definition example_reply :: reply where
  "example_reply = \<lparr>putData_reply = Inr [''h1'', ''h2''], publish_reply = Inr [''s1'', ''s2'']\<rparr>"

definition example_short_reply :: reply where
  "example_short_reply = \<lparr>putData_reply = Inr [''h1''], publish_reply = Inr [''s1'', ''s2'']\<rparr>"

text \<open>
  Replies for the two batches of the example run: both fulfilled; and both storage
  requests rejected.
\<close>

definition example_replies :: "nat \<Rightarrow> reply" where
  "example_replies i =
     (if i = 0 then example_reply
      else \<lparr>putData_reply = Inr [''h3''], publish_reply = Inr [''s3'']\<rparr>)"


text \<open>
  The same records with batch size 1: three batches. The storage request of the second
  batch is rejected, and that batch settles before the third record arrives.
\<close>

definition example_config_one :: config where
  "example_config_one = example_config\<lparr>batchSize := 1\<rparr>"


definition example_replies_one :: "nat \<Rightarrow> reply" where
  "example_replies_one i =
     (if i = 1 then \<lparr>putData_reply = Inl ''store down'', publish_reply = Inr []\<rparr>
      else \<lparr>putData_reply = Inr [''h''], publish_reply = Inr [''s'']\<rparr>)"

definition example_events_one :: "stream_event list" where
  "example_events_one =
     [Data (Parsed (Some ''1'') (JNum 1)), Data (Parsed (Some ''2'') (JNum 2)), Settles 1,
      Data (Parsed (Some ''3'') (JNum 3)), Settles 0]"

section \<open>The putData command never stores a trailing partial batch\<close>

lemma put_on_data_inv:
  assumes "concat (put_calls st) @ items st = xs"
      and "\<forall>c\<in>set (put_calls st). int (length c) = max 1 B"
      and "int (length (items st)) < max 1 B"
  shows "concat (put_calls (put_on_data B st x)) @ items (put_on_data B st x) = xs @ [x]
       \<and> (\<forall>c\<in>set (put_calls (put_on_data B st x)). int (length c) = max 1 B)
       \<and> int (length (items (put_on_data B st x))) < max 1 B"
  using assms by (auto simp: put_on_data_def Let_def)

lemma putData_handler_inv:
  "concat (put_calls (putData_handler B xs)) @ items (putData_handler B xs) = xs
   \<and> (\<forall>c\<in>set (put_calls (putData_handler B xs)). int (length c) = max 1 B)
   \<and> int (length (items (putData_handler B xs))) < max 1 B"
proof (induction xs rule: rev_induct)
  case Nil
  show ?case by (simp add: putData_handler_def)
next
  case (snoc x xs)
  have step: "putData_handler B (xs @ [x]) = put_on_data B (putData_handler B xs) x"
    by (simp add: putData_handler_def)
  from snoc show ?case unfolding step by (intro put_on_data_inv) auto
qed

lemma concat_fixed_length:
  "\<forall>c\<in>set cs. length c = n \<Longrightarrow> length (concat cs) = n * length cs"
  by (induction cs) auto

lemma putData_remainder_length:
  assumes "1 \<le> B"
  shows "int (length (items (putData_handler B xs))) = int (length xs) mod B"
proof -
  let ?st = "putData_handler B xs"
  from putData_handler_inv [of B xs] assms
  have cat: "concat (put_calls ?st) @ items ?st = xs"
   and len: "\<forall>c\<in>set (put_calls ?st). length c = nat B"
   and small: "int (length (items ?st)) < B" by auto
  have "length (concat (put_calls ?st)) = nat B * length (put_calls ?st)"
    using len by (rule concat_fixed_length)
  moreover have "length xs = length (concat (put_calls ?st)) + length (items ?st)"
    using cat by (metis length_append)
  ultimately have "int (length xs) = B * int (length (put_calls ?st)) + int (length (items ?st))"
    using assms by simp
  then have "int (length xs) mod B = int (length (items ?st)) mod B"
    by (simp add: ac_simps)
  also have "\<dots> = int (length (items ?st))" using small by simp
  finally show ?thesis by simp
qed

text \<open>
  Claim C9. In the putData command a storage request is sent only when the buffer reaches
  \<open>batchSize\<close>, and no handler flushes the buffer at the end of the input. So when the
  number of records is not a multiple of \<open>batchSize\<close> (at least 1), the buffer is not
  empty at the end and holds the last \<open>length xs mod batchSize\<close> records; every request
  carries exactly \<open>batchSize\<close> records, and the requests followed by the buffer give the
  input back, so no request contains a record of the final buffer.
\<close>

theorem putData_remainder_never_stored:
  assumes "1 \<le> B" and "int (length xs) mod B \<noteq> 0"
  shows "items (putData_handler B xs) \<noteq> []
       \<and> int (length (items (putData_handler B xs))) = int (length xs) mod B
       \<and> concat (put_calls (putData_handler B xs)) @ items (putData_handler B xs) = xs
       \<and> (\<forall>c\<in>set (put_calls (putData_handler B xs)). int (length c) = B)"
proof -
  have len: "int (length (items (putData_handler B xs))) = int (length xs) mod B"
    using assms(1) by (rule putData_remainder_length)
  with assms(2) have "items (putData_handler B xs) \<noteq> []" by auto
  moreover have "max 1 B = B" using assms(1) by simp
  ultimately show ?thesis using len putData_handler_inv [of B xs] by simp
qed

theorem putData_remainder_never_stored_witness:
  "(1::int) \<le> 2 \<and> int (length [JNum 1, JNum 2, JNum 3]) mod 2 \<noteq> 0
   \<and> items (putData_handler 2 [JNum 1, JNum 2, JNum 3]) = [JNum 3]
   \<and> put_calls (putData_handler 2 [JNum 1, JNum 2, JNum 3]) = [[JNum 1, JNum 2]]"
  using putData_remainder_never_stored [of 2 "[JNum 1, JNum 2, JNum 3]"]
  by (simp add: putData_handler_def put_on_data_def)

section \<open>The report of a compound batch\<close>

text \<open>
  For a compound size that is not negative, the slice taken for the loop index \<open>i\<close> is
  the window of that many elements starting at position \<open>i\<close>; every statement id gives
  two console lines.
\<close>

lemma js_slice_window:
  assumes "0 \<le> k"
  shows "js_slice xs (int i) (int i + k) = take (nat k) (drop i xs)"
proof (cases "i < length xs")
  case True
  have "take (nat (min (int i + k) (int (length xs)) - int i)) (drop i xs) = take (nat k) (drop i xs)"
  proof (cases "int i + k \<le> int (length xs)")
    case True
    then show ?thesis by (simp add: min_def)
  next
    case False
    then have "length (drop i xs) \<le> nat k" by simp
    with False show ?thesis by (simp add: min_def)
  qed
  with True assms show ?thesis by (simp add: js_slice_def Let_def min_def)
next
  case False
  with assms show ?thesis by (simp add: js_slice_def Let_def min_def)
qed

lemma length_printBatchResults:
  "length (printBatchResults bodyHashes statementIds stmts k) = 2 * length statementIds"
  by (simp add: printBatchResults_def Let_def length_concat comp_def sum_list_triv)

text \<open>
  Claim C1. With four statements, two returned statement ids and compound size 2, the
  claim asks for the second entry to hold the addresses and statements at positions 2
  and 3. \<open>printBatchResults\<close> slices at the group index itself and not at the group index
  times the compound size, so its second entry holds positions 1 and 2.
\<close>

theorem printBatchResults_compound_overlap:
  "printBatchResults [''h0'', ''h1'', ''h2'', ''h3''] [''s0'', ''s1''] example_stmts 2 =
     [StatementId ''s0'',
      Bodies [\<lparr>body_object = Some ''h0'', body_refs = [''a''], body_tags = []\<rparr>,
              \<lparr>body_object = Some ''h1'', body_refs = [''b''], body_tags = []\<rparr>],
      StatementId ''s1'',
      Bodies [\<lparr>body_object = Some ''h1'', body_refs = [''b''], body_tags = []\<rparr>,
              \<lparr>body_object = Some ''h2'', body_refs = [''c''], body_tags = []\<rparr>]]"
  by (simp add: printBatchResults_def js_slice_def js_index_def example_stmts_def upt_rec)

section \<open>Ingestion: what the data handler does\<close>

lemma feed_append:
  "feed cfg st (xs @ ys) = (case feed cfg st xs of Inl a \<Rightarrow> Inl a | Inr st' \<Rightarrow> feed cfg st' ys)"
  by (induction xs arbitrary: st) (auto split: sum.splits)

lemma feed_preserves:
  assumes step: "\<And>st x st'. P st \<Longrightarrow> on_data cfg st x = Inr st' \<Longrightarrow> P st'"
      and "P st"
  shows "case feed cfg st xs of Inl (e, st') \<Rightarrow> P st' | Inr st' \<Rightarrow> P st'"
  using \<open>P st\<close>
proof (induction xs arbitrary: st)
  case Nil
  then show ?case by simp
next
  case (Cons x xs)
  show ?case
  proof (cases "on_data cfg st x")
    case (Inl e)
    with Cons.prems show ?thesis by simp
  next
    case (Inr st1)
    with Cons.prems have "P st1" by (auto intro: step)
    from Cons.IH [OF this] Inr show ?thesis by simp
  qed
qed

lemma on_data_Inr:
  assumes "on_data cfg st x = Inr st'" and "\<not> dryRun cfg"
  shows "\<exists>w obj. x = Parsed (Some w) obj \<and> w \<noteq> [] \<and>
           st' = (if batchSize cfg \<le> int (length (statementBodies st)) + 1
                  then st\<lparr>statementBodies := [], statements := [],
                          publishPromises := publishPromises st @
                            [(statementBodies st @ [obj], statements st @ [draft cfg w obj])]\<rparr>
                  else st\<lparr>statementBodies := statementBodies st @ [obj],
                          statements := statements st @ [draft cfg w obj]\<rparr>)"
  using assms
  by (auto simp: on_data_def draft_def Let_def split: jq_output.splits option.splits if_splits)

lemma on_data_dry:
  assumes "on_data cfg st x = Inr st'" and "dryRun cfg"
  shows "st' = st\<lparr>console := console st @ [DryRunLine (item_refs x) []]\<rparr>"
  using assms
  by (auto simp: on_data_def Let_def split: jq_output.splits option.splits if_splits)

lemma publishStream_preserves:
  assumes step: "\<And>st x st'. P st \<Longrightarrow> on_data cfg st x = Inr st' \<Longrightarrow> P st'"
      and fin: "\<And>st. P st \<Longrightarrow> P (on_end st)"
      and "P init_state"
  shows "case publishStream cfg xs of Inl (e, st') \<Rightarrow> P st' | Inr st' \<Rightarrow> P st'"
  using feed_preserves [of P cfg init_state xs, OF step \<open>P init_state\<close>]
  by (auto simp: publishStream_def fin split: sum.splits)

lemma on_data_aligned:
  assumes "aligned st" and "on_data cfg st x = Inr st'"
  shows "aligned st'"
proof (cases "dryRun cfg")
  case True
  from on_data_dry [OF assms(2) True] assms(1) show ?thesis by (simp add: aligned_def)
next
  case False
  from on_data_Inr [OF assms(2) False] assms(1) show ?thesis
    by (auto simp: aligned_def split: if_splits)
qed

lemma on_data_untagged:
  assumes "untagged st" and "on_data cfg st x = Inr st'"
  shows "untagged st'"
proof (cases "dryRun cfg")
  case True
  from on_data_dry [OF assms(2) True] assms(1) show ?thesis by (simp add: untagged_def)
next
  case False
  from on_data_Inr [OF assms(2) False] assms(1) show ?thesis
    by (auto simp: untagged_def draft_def split: if_splits)
qed

lemma publishStream_aligned:
  "case publishStream cfg xs of Inl (e, st') \<Rightarrow> aligned st' | Inr st' \<Rightarrow> aligned st'"
  by (rule publishStream_preserves)
     (auto simp: on_data_aligned, auto simp: aligned_def on_end_def init_state_def)

lemma publishStream_untagged:
  "case publishStream cfg xs of Inl (e, st') \<Rightarrow> untagged st' | Inr st' \<Rightarrow> untagged st'"
  by (rule publishStream_preserves)
     (auto simp: on_data_untagged, auto simp: untagged_def on_end_def init_state_def)

lemma example_run: "publishStream example_config example_items = Inr example_final"
  by (simp add: publishStream_def example_items_def example_final_def init_state_def on_end_def
      on_data_def draft_def example_config_def js_prop_def)

section \<open>Batches partition the validated input\<close>





section \<open>Statements never carry tags\<close>

lemma publishBatch_Publish_tags:
  assumes "Publish po' ss \<in> set (calls (publishBatch po bodies stmts rp))"
      and "\<forall>s\<in>set stmts. tags s = []"
  shows "\<forall>s\<in>set ss. tags s = []"
  using assms
  by (auto simp: publishBatch_def Let_def split: sum.splits if_splits dest!: set_zip_leftD)

text \<open>
  Claim C10. In every batch the run has flushed, whether the run reached the end of the
  input or was ended by an error, every statement has the empty tags list; and the
  statements that \<open>publishBatch\<close> sends in its publish request, after rewriting their
  objects to the returned addresses, still have the empty tags list.
\<close>

theorem published_statements_have_no_tags:
  assumes "publishStream cfg xs = Inr st \<or> publishStream cfg xs = Inl (e, st)"
      and "(bodies, stmts) \<in> set (publishPromises st)"
  shows "(\<forall>s\<in>set stmts. tags s = [])
       \<and> (\<forall>po ss. Publish po ss \<in> set (calls (publishBatch (publishOpts cfg) bodies stmts rp))
             \<longrightarrow> (\<forall>s\<in>set ss. tags s = []))"
proof -
  have "untagged st"
    using publishStream_untagged [of cfg xs] assms(1) by auto
  with assms(2) have a: "\<forall>s\<in>set stmts. tags s = []"
    by (auto simp: untagged_def)
  then show ?thesis using publishBatch_Publish_tags by blast
qed

theorem published_statements_have_no_tags_witness:
  "publishStream example_config example_items = Inr example_final
   \<and> ([JNum 1, JNum 2], [draft example_config ''1'' (JNum 1), draft example_config ''2'' (JNum 2)])
        \<in> set (publishPromises example_final)
   \<and> calls (publishBatch (publishOpts example_config) [JNum 1, JNum 2]
        [draft example_config ''1'' (JNum 1), draft example_config ''2'' (JNum 2)] example_reply)
      = [PutData [JNum 1, JNum 2],
         Publish (publishOpts example_config)
           [\<lparr>object = JStr ''h1'', refs = [''1''], tags = []\<rparr>,
            \<lparr>object = JStr ''h2'', refs = [''2''], tags = []\<rparr>]]
   \<and> tags (draft example_config ''1'' (JNum 1)) = []"
proof -
  have m: "([JNum 1, JNum 2], [draft example_config ''1'' (JNum 1), draft example_config ''2'' (JNum 2)])
        \<in> set (publishPromises example_final)"
    by (simp add: example_final_def)
  have c: "calls (publishBatch (publishOpts example_config) [JNum 1, JNum 2]
        [draft example_config ''1'' (JNum 1), draft example_config ''2'' (JNum 2)] example_reply)
      = [PutData [JNum 1, JNum 2],
         Publish (publishOpts example_config)
           [\<lparr>object = JStr ''h1'', refs = [''1''], tags = []\<rparr>,
            \<lparr>object = JStr ''h2'', refs = [''2''], tags = []\<rparr>]]"
    by (simp add: publishBatch_def example_reply_def draft_def upt_rec Let_def)
  from published_statements_have_no_tags [OF disjI1 [OF example_run] m, of example_reply] m c example_run
  show ?thesis by simp
qed

section \<open>Dry-run mode\<close>

lemma feed_dry:
  assumes "dryRun cfg"
  shows "case feed cfg st xs of
           Inr st' \<Rightarrow> st' = st\<lparr>console := console st @ map (\<lambda>x. DryRunLine (item_refs x) []) xs\<rparr>
         | Inl (e, st') \<Rightarrow> (\<exists>n<length xs.
              st' = st\<lparr>console := console st @ map (\<lambda>x. DryRunLine (item_refs x) []) (take n xs)\<rparr>)"
proof (induction xs arbitrary: st)
  case Nil
  show ?case by simp
next
  case (Cons x xs)
  show ?case
  proof (cases "on_data cfg st x")
    case (Inl e)
    then show ?thesis by (auto intro: exI [of _ 0])
  next
    case (Inr st1)
    have st1: "st1 = st\<lparr>console := console st @ [DryRunLine (item_refs x) []]\<rparr>"
      using on_data_dry [OF Inr assms] .
    show ?thesis
    proof (cases "feed cfg st1 xs")
      case (Inr st2)
      with Cons.IH [of st1] \<open>on_data cfg st x = Inr st1\<close> st1 show ?thesis by simp
    next
      case (Inl a)
      obtain e st2 where a: "a = (e, st2)" by (cases a)
      with Cons.IH [of st1] Inl obtain n where
        n: "n < length xs" "st2 = st1\<lparr>console := console st1 @ map (\<lambda>x. DryRunLine (item_refs x) []) (take n xs)\<rparr>"
        by auto
      have "st2 = st\<lparr>console := console st @ map (\<lambda>x. DryRunLine (item_refs x) []) (take (Suc n) (x # xs))\<rparr>"
        using n(2) st1 by simp
      moreover have "Suc n < length (x # xs)" using n(1) by simp
      ultimately show ?thesis using Inl a \<open>on_data cfg st x = Inr st1\<close> by auto
    qed
  qed
qed

lemma on_data_has_id:
  assumes "on_data cfg st x = Inr st'"
  shows "\<exists>w. w \<noteq> [] \<and> item_refs x = [w]"
  using assms
  by (auto simp: on_data_def Let_def split: jq_output.splits option.splits if_splits)

lemma feed_has_ids:
  "feed cfg st xs = Inr st' \<Longrightarrow> \<forall>x\<in>set xs. \<exists>w. w \<noteq> [] \<and> item_refs x = [w]"
  by (induction xs arbitrary: st) (auto split: sum.splits dest: on_data_has_id)

text \<open>
  Claim C7. In dry-run mode no \<open>publishBatch\<close> invocation is ever made, so neither a
  storage nor a publish request is sent. A run that reaches the end of its input has
  printed exactly one line per record, in order, with the record's one-element refs and
  the empty tags, and the join prints nothing more; a run ended by an invalid record has
  printed the lines of the records before it.
\<close>

theorem dry_run_makes_no_calls:
  assumes "dryRun cfg"
  shows "case publishStream cfg xs of
           Inr st \<Rightarrow>
             publishPromises st = []
             \<and> batch_results cfg st replies = []
             \<and> console st = map (\<lambda>x. DryRunLine (item_refs x) []) xs
             \<and> (\<forall>x\<in>set xs. \<exists>w. w \<noteq> [] \<and> item_refs x = [w])
             \<and> printed_lines (run_join cfg st replies order) = []
         | Inl (e, st) \<Rightarrow>
             publishPromises st = []
             \<and> batch_results cfg st replies = []
             \<and> (\<exists>n<length xs. console st = map (\<lambda>x. DryRunLine (item_refs x) []) (take n xs))"
proof (cases "feed cfg init_state xs")
  case (Inr st0)
  with feed_dry [OF assms, where st = init_state and xs = xs]
  have st0: "st0 = init_state\<lparr>console := map (\<lambda>x. DryRunLine (item_refs x) []) xs\<rparr>"
    by (simp add: init_state_def)
  then have "on_end st0 = st0" by (simp add: on_end_def init_state_def)
  with Inr st0 feed_has_ids [OF Inr] assms show ?thesis
    by (simp add: publishStream_def init_state_def batch_results_def run_join_def join_all_def
        settlements_def)
next
  case (Inl a)
  obtain e st where a: "a = (e, st)" by (cases a)
  with Inl feed_dry [OF assms, where st = init_state and xs = xs] show ?thesis
    by (auto simp: publishStream_def init_state_def batch_results_def)
qed

theorem dry_run_makes_no_calls_witness:
  "dryRun (example_config\<lparr>dryRun := True\<rparr>)
   \<and> publishStream (example_config\<lparr>dryRun := True\<rparr>) example_items =
       Inr \<lparr>statementBodies = [], statements = [], publishPromises = [],
            console = [DryRunLine [''1''] [], DryRunLine [''2''] [], DryRunLine [''3''] []]\<rparr>"
proof -
  have run: "publishStream (example_config\<lparr>dryRun := True\<rparr>) example_items =
       Inr \<lparr>statementBodies = [], statements = [], publishPromises = [],
            console = [DryRunLine [''1''] [], DryRunLine [''2''] [], DryRunLine [''3''] []]\<rparr>"
    by (simp add: publishStream_def example_items_def init_state_def on_end_def
        on_data_def example_config_def js_prop_def)
  have d: "dryRun (example_config\<lparr>dryRun := True\<rparr>)" by simp
  from dry_run_makes_no_calls [OF d, where xs = example_items] run d show ?thesis by simp
qed

section \<open>Records that end the run\<close>

lemma on_data_no_id:
  assumes "wki = None \<or> wki = Some []"
  shows "\<exists>e. on_data cfg st (Parsed wki obj) = Inl e
             \<and> (e = UnableToExtractId obj \<or> (\<exists>msg. e = ValidationFailed msg obj))"
  using assms by (auto simp: on_data_def split: option.splits)

lemma on_data_other_schema:
  assumes "isSelfDescribingRecord cfg obj"
      and "objectPath_get obj [''schema''] (JStr ''/'') \<noteq> JStr (schemaReference cfg)"
  shows "\<exists>e. on_data cfg st (Parsed wki obj) = Inl e
             \<and> (e = DifferentSchema (objectPath_get obj [''schema''] (JStr ''/'')) (schemaReference cfg)
                \<or> e = UnableToExtractId obj \<or> (\<exists>msg. e = ValidationFailed msg obj))"
  using assms by (auto simp: on_data_def Let_def split: option.splits)

lemma publishStream_abort:
  assumes "feed cfg init_state xs = Inr st" and "on_data cfg st x = Inl e"
  shows "publishStream cfg (xs @ x # ys) = Inl (e, st)"
  using assms by (simp add: publishStream_def feed_append)

lemma example_feed: "feed example_config init_state [Parsed (Some ''1'') (JNum 1)] = Inr example_buffered"
  by (simp add: example_buffered_def init_state_def on_data_def draft_def example_config_def js_prop_def)

text \<open>
  Claim C5. When a record whose identifier is missing or empty arrives after records
  \<open>xs\<close> that were accepted, the run ends with an error, the identifier error or, if the
  record also fails validation, the validation error. The state at the error is the
  state \<open>st\<close> after \<open>xs\<close>: the record is not buffered, the buffer it would have joined is
  not flushed, and no \<open>publishBatch\<close> invocation is added.
\<close>

theorem empty_identifier_aborts:
  assumes "wki = None \<or> wki = Some []"
      and "feed cfg init_state xs = Inr st"
  shows "\<exists>e. publishStream cfg (xs @ Parsed wki obj # ys) = Inl (e, st)
             \<and> (e = UnableToExtractId obj \<or> (\<exists>msg. e = ValidationFailed msg obj))"
  using on_data_no_id [OF assms(1), of cfg st obj] publishStream_abort [OF assms(2)] by blast

theorem empty_identifier_aborts_witness:
  "(Some [] = (None :: string option) \<or> Some [] = Some ([] :: string))
   \<and> feed example_config init_state [Parsed (Some ''1'') (JNum 1)] = Inr example_buffered
   \<and> publishStream example_config ([Parsed (Some ''1'') (JNum 1)] @ Parsed (Some []) (JNum 2) # [Parsed (Some ''3'') (JNum 3)])
       = Inl (UnableToExtractId (JNum 2), example_buffered)"
proof -
  have a: "Some [] = (None :: string option) \<or> Some [] = Some ([] :: string)" by simp
  have "on_data example_config example_buffered (Parsed (Some []) (JNum 2)) = Inl (UnableToExtractId (JNum 2))"
    by (simp add: on_data_def example_config_def)
  from publishStream_abort [OF example_feed this]
  have run: "publishStream example_config ([Parsed (Some ''1'') (JNum 1)] @ Parsed (Some []) (JNum 2) # [Parsed (Some ''3'') (JNum 3)])
       = Inl (UnableToExtractId (JNum 2), example_buffered)" .
  from empty_identifier_aborts [OF a example_feed, of "JNum 2" "[Parsed (Some ''3'') (JNum 3)]"] run example_feed
  show ?thesis by simp
qed

text \<open>
  The handler compares the value of the record's \<open>schema\<close> property, not the string under
  its \<open>/\<close> key, with the target reference; a link object is never equal to a string.
\<close>

lemma link_object_never_matches:
  "js_prop obj ''schema'' = Some (JObj kvs) \<Longrightarrow> objectPath_get obj [''schema''] (JStr ''/'') \<noteq> JStr r"
  by simp

text \<open>
  Claim C6. When a self-describing record whose schema value differs from the target
  reference arrives after accepted records \<open>xs\<close>, the run ends with an error (the schema
  error, or an earlier validation or identifier error of the same record), in the state
  \<open>st\<close> after \<open>xs\<close>: the record is neither buffered nor part of any flushed batch.
\<close>

theorem schema_mismatch_aborts:
  assumes "isSelfDescribingRecord cfg obj"
      and "objectPath_get obj [''schema''] (JStr ''/'') \<noteq> JStr (schemaReference cfg)"
      and "feed cfg init_state xs = Inr st"
  shows "\<exists>e. publishStream cfg (xs @ Parsed wki obj # ys) = Inl (e, st)
             \<and> (e = DifferentSchema (objectPath_get obj [''schema''] (JStr ''/'')) (schemaReference cfg)
                \<or> e = UnableToExtractId obj \<or> (\<exists>msg. e = ValidationFailed msg obj))"
  using on_data_other_schema [OF assms(1,2), of st wki] publishStream_abort [OF assms(3)] by blast

theorem schema_mismatch_aborts_witness:
  "isSelfDescribingRecord example_config example_foreign
   \<and> objectPath_get example_foreign [''schema''] (JStr ''/'') \<noteq> JStr (schemaReference example_config)
   \<and> feed example_config init_state [Parsed (Some ''1'') (JNum 1)] = Inr example_buffered
   \<and> publishStream example_config ([Parsed (Some ''1'') (JNum 1)] @ Parsed (Some ''2'') example_foreign # [])
       = Inl (DifferentSchema (JObj [(''/'', JStr ''Qm2'')]) ''Qm1'', example_buffered)"
proof -
  have a: "isSelfDescribingRecord example_config example_foreign"
    by (simp add: example_config_def example_foreign_def js_prop_def)
  have b: "objectPath_get example_foreign [''schema''] (JStr ''/'') \<noteq> JStr (schemaReference example_config)"
    by (simp add: example_foreign_def js_prop_def)
  have "on_data example_config example_buffered (Parsed (Some ''2'') example_foreign)
            = Inl (DifferentSchema (JObj [(''/'', JStr ''Qm2'')]) ''Qm1'')"
    by (simp add: on_data_def example_config_def example_foreign_def js_prop_def)
  from publishStream_abort [OF example_feed this]
  have run: "publishStream example_config ([Parsed (Some ''1'') (JNum 1)] @ Parsed (Some ''2'') example_foreign # [])
       = Inl (DifferentSchema (JObj [(''/'', JStr ''Qm2'')]) ''Qm1'', example_buffered)" .
  from schema_mismatch_aborts [OF a b example_feed, of "Some ''2''" "[]"] a b run example_feed
  show ?thesis by simp
qed

section \<open>A storage reply of the wrong length\<close>

text \<open>The decimal numeral printed for a count reads back as that count.\<close>

lemma digit_value_nth:
  assumes "k < 10"
  shows "digit_value (''0123456789'' ! k) = k"
proof -
  from assms
  have "k = 0 \<or> k = 1 \<or> k = 2 \<or> k = 3 \<or> k = 4 \<or> k = 5 \<or> k = 6 \<or> k = 7 \<or> k = 8 \<or> k = 9"
    by arith
  then show ?thesis by (elim disjE) (simp_all add: digit_value_def)
qed

lemma digit_value_digit_char: "digit_value (digit_char n) = n mod 10"
  by (simp add: digit_value_nth del: nth_Cons_numeral)

lemma read_nat_snoc: "read_nat (s @ [c]) = 10 * read_nat s + digit_value c"
  by (simp add: read_nat_def)

lemma read_nat_show_nat: "read_nat (show_nat n) = n"
proof (induction n rule: show_nat.induct)
  case (1 n)
  show ?case
  proof (cases "n < 10")
    case True
    then show ?thesis
      by (subst show_nat.simps) (simp add: read_nat_def digit_value_digit_char del: digit_char.simps)
  next
    case False
    with 1 have "read_nat (show_nat (n div 10)) = n div 10" by simp
    with False show ?thesis
      by (subst show_nat.simps) (simp add: read_nat_snoc digit_value_digit_char del: digit_char.simps)
  qed
qed

lemma count_mismatch_example:
  "count_mismatch 1000 999 = ''Expected 1000 results from putting data blobs, received 999''"
  by (simp add: count_mismatch_def show_nat.simps)

text \<open>
  Claim C4. For a batch flushed by a run, with \<open>N\<close> payloads, a storage reply with
  \<open>M \<noteq> N\<close> addresses rejects the batch, and the message of the rejection is the text
  \<open>Expected\<close>, the decimal numeral of \<open>N\<close>, the text \<open>results from putting data blobs,
  received\<close> and the decimal numeral of \<open>M\<close>; each numeral reads back as its count. The
  storage request is the only request of the batch, so no publish request is sent, and
  nothing is printed.
\<close>

theorem count_mismatch_stops_batch:
  assumes "publishStream cfg xs = Inr st"
      and "(bodies, stmts) \<in> set (publishPromises st)"
      and "putData_reply rp = Inr hashes"
      and "length hashes \<noteq> length bodies"
  shows "outcome (publishBatch po bodies stmts rp) =
           Some (''Expected '' @ show_nat (length bodies)
                 @ '' results from putting data blobs, received '' @ show_nat (length hashes))
       \<and> read_nat (show_nat (length bodies)) = length bodies
       \<and> read_nat (show_nat (length hashes)) = length hashes
       \<and> calls (publishBatch po bodies stmts rp) = [PutData bodies]
       \<and> printed (publishBatch po bodies stmts rp) = []"
proof -
  have "aligned st" using publishStream_aligned [of cfg xs] assms(1) by simp
  with assms(2) have "length stmts = length bodies" by (auto simp: aligned_def)
  with assms(3,4) show ?thesis
    by (simp add: publishBatch_def count_mismatch_def read_nat_show_nat)
qed

theorem count_mismatch_stops_batch_witness:
  "publishStream example_config example_items = Inr example_final
   \<and> ([JNum 1, JNum 2], [draft example_config ''1'' (JNum 1), draft example_config ''2'' (JNum 2)])
        \<in> set (publishPromises example_final)
   \<and> putData_reply example_short_reply = Inr [''h1'']
   \<and> length [''h1''] \<noteq> length [JNum 1, JNum 2]
   \<and> publishBatch (publishOpts example_config) [JNum 1, JNum 2]
        [draft example_config ''1'' (JNum 1), draft example_config ''2'' (JNum 2)] example_short_reply
      = \<lparr>calls = [PutData [JNum 1, JNum 2]], printed = [],
         outcome = Some ''Expected 2 results from putting data blobs, received 1''\<rparr>"
proof -
  have m: "([JNum 1, JNum 2], [draft example_config ''1'' (JNum 1), draft example_config ''2'' (JNum 2)])
        \<in> set (publishPromises example_final)"
    by (simp add: example_final_def)
  have r: "putData_reply example_short_reply = Inr [''h1'']" by (simp add: example_short_reply_def)
  have l: "length [''h1''] \<noteq> length [JNum 1, JNum 2]" by simp
  have b: "publishBatch (publishOpts example_config) [JNum 1, JNum 2]
        [draft example_config ''1'' (JNum 1), draft example_config ''2'' (JNum 2)] example_short_reply
      = \<lparr>calls = [PutData [JNum 1, JNum 2]], printed = [],
         outcome = Some ''Expected 2 results from putting data blobs, received 1''\<rparr>"
    by (simp add: publishBatch_def example_short_reply_def count_mismatch_def show_nat.simps)
  from count_mismatch_stops_batch [OF example_run m r l, of "publishOpts example_config"] m r b example_run
  show ?thesis by simp
qed

section \<open>The join: when the success message is printed\<close>

lemma join_run_Finished: "join_run d Finished es = map (\<lambda>(i, r). Settled i r) es"
  by (induction es) auto

lemma Finished_prints_nothing: "Printed l \<notin> set (join_run d Finished es)"
  by (induction es) auto

lemma join_run_success:
  assumes "0 < k" and "Printed AllPublished \<in> set (join_run d (Pending k) es)"
  shows "\<not> d \<and> k \<le> length es \<and> (\<forall>e\<in>set (take k es). snd e = None)
       \<and> before_success (join_run d (Pending k) es) = map (\<lambda>(i, r). Settled i r) (take k es)"
  using assms
proof (induction es arbitrary: k)
  case Nil
  then show ?case by simp
next
  case (Cons e es)
  obtain i r where e: "e = (i, r)" by (cases e)
  show ?case
  proof (cases r)
    case (Some m)
    with Cons.prems e show ?thesis
      by (simp add: Finished_prints_nothing)
  next
    case None
    show ?thesis
    proof (cases "k \<le> 1")
      case True
      with Cons.prems(1) have k: "k = 1" by simp
      from Cons.prems(2) e None k have "\<not> d"
        by (auto simp: Finished_prints_nothing split: if_splits)
      then show ?thesis using e None k
        by (simp add: before_success_def join_run_Finished)
    next
      case False
      then have k1: "0 < k - 1" by simp
      from Cons.prems(2) e None False
      have "Printed AllPublished \<in> set (join_run d (Pending (k - 1)) es)" by simp
      from Cons.IH [OF k1 this] False e None show ?thesis
        by (cases k) (auto simp: before_success_def)
    qed
  qed
qed

lemma distinct_bounded_length:
  assumes "distinct xs" and "\<forall>x\<in>set xs. x < n"
  shows "length xs \<le> n \<and> (length xs = n \<longrightarrow> set xs = {..<n})"
proof -
  have sub: "set xs \<subseteq> {..<n}" using assms(2) by auto
  have c: "card (set xs) = length xs" using assms(1) by (rule distinct_card)
  have "card (set xs) \<le> card {..<n}" using sub by (intro card_mono) auto
  then have le: "length xs \<le> n" using c by simp
  have "set xs = {..<n}" if "length xs = n"
    using sub c that by (intro card_subset_eq) auto
  with le show ?thesis by simp
qed

lemma length_batch_results: "length (batch_results cfg st replies) = length (publishPromises st)"
  by (simp add: batch_results_def)


lemma settlements_fst: "map fst (settlements rs order) = filter (\<lambda>i. i < length rs) order"
  by (simp add: settlements_def comp_def)

lemma settlements_mem: "(i, r) \<in> set (settlements rs order) \<Longrightarrow> r = outcome (rs ! i)"
  by (auto simp: settlements_def)

lemma example_success_run:
  "run_join example_config example_final example_replies [1, 0] =
     [Settled 1 None, Settled 0 None, Printed AllPublished]"
  by (simp add: run_join_def join_all_def settlements_def batch_results_def example_final_def
      example_config_def example_replies_def example_reply_def publishBatch_def draft_def
      enumerate_eq_zip upt_rec Let_def)

text \<open>
  Claim C8. Each batch settles at most once, so the order of settlements has no
  repetition. If the trace of the join contains the success message, then the run is not
  a dry run, every flushed batch was fulfilled, and the fulfilment of every flushed batch
  is in the trace before the message. So reaching the end of the input is not enough: the
  message waits for the last batch, and one rejected or unsettled batch suppresses it.
\<close>

theorem success_only_after_all_batches:
  assumes "distinct order"
      and "Printed AllPublished \<in> set (run_join cfg st replies order)"
  shows "\<not> dryRun cfg
       \<and> (\<forall>i<length (publishPromises st).
             outcome (batch_results cfg st replies ! i) = None
           \<and> Settled i None \<in> set (before_success (run_join cfg st replies order)))"
proof (cases "length (publishPromises st) = 0")
  case True
  with assms(2) show ?thesis
    by (auto simp: run_join_def join_all_def Finished_prints_nothing split: if_splits)
next
  case False
  let ?n = "length (publishPromises st)"
  let ?rs = "batch_results cfg st replies"
  let ?es = "settlements ?rs order"
  have run: "run_join cfg st replies order = join_run (dryRun cfg) (Pending ?n) ?es"
    using False by (simp add: run_join_def join_all_def)
  from False have pos: "0 < ?n" by simp
  from join_run_success [OF pos assms(2) [unfolded run]]
  have nd: "\<not> dryRun cfg" and len: "?n \<le> length ?es"
    and ok: "\<forall>e\<in>set (take ?n ?es). snd e = None"
    and bs: "before_success (join_run (dryRun cfg) (Pending ?n) ?es) =
               map (\<lambda>(i, r). Settled i r) (take ?n ?es)"
    by blast+
  have d: "distinct (map fst ?es)"
    using assms(1) by (simp add: settlements_fst)
  have b: "\<forall>x\<in>set (map fst ?es). x < ?n"
    by (simp add: settlements_fst length_batch_results)
  from distinct_bounded_length [OF d b] len
  have all: "set (map fst ?es) = {..<?n}" and full: "take ?n ?es = ?es" by auto
  have "outcome (?rs ! i) = None \<and> Settled i None \<in> set (before_success (run_join cfg st replies order))"
    if "i < ?n" for i
  proof -
    from that all have "i \<in> set (map fst ?es)" by simp
    then obtain r where m: "(i, r) \<in> set ?es" by auto
    then have r: "r = outcome (?rs ! i)" by (rule settlements_mem)
    from ok m full have "r = None" by auto
    moreover have "Settled i r \<in> set (map (\<lambda>(i, r). Settled i r) ?es)"
      using m by force
    ultimately show ?thesis using r bs full run by simp
  qed
  with nd show ?thesis by blast
qed

theorem success_only_after_all_batches_witness:
  "distinct [1, 0 :: nat]
   \<and> Printed AllPublished \<in> set (run_join example_config example_final example_replies [1, 0])
   \<and> before_success (run_join example_config example_final example_replies [1, 0])
        = [Settled 1 None, Settled 0 None]
   \<and> \<not> dryRun example_config"
proof -
  have d: "distinct [1, 0 :: nat]" by simp
  have p: "Printed AllPublished \<in> set (run_join example_config example_final example_replies [1, 0])"
    unfolding example_success_run by simp
  have b: "before_success (run_join example_config example_final example_replies [1, 0])
        = [Settled 1 None, Settled 0 None]"
    unfolding example_success_run by (simp add: before_success_def)
  have n: "\<not> dryRun example_config" by (simp add: example_config_def)
  from success_only_after_all_batches [OF d p] d p b n show ?thesis
    by blast
qed

section \<open>The join: what is logged when batches fail\<close>


lemma printed_lines_settled: "printed_lines (map (\<lambda>(i, r). Settled i r) es) = []"
  by (induction es) auto


lemma example_mismatch_run:
  "batch_results example_config example_final (\<lambda>i. example_reply) =
     [publishBatch (publishOpts example_config) [JNum 1, JNum 2]
        [draft example_config ''1'' (JNum 1), draft example_config ''2'' (JNum 2)] example_reply,
      \<lparr>calls = [PutData [JNum 3]], printed = [],
       outcome = Some ''Expected 1 results from putting data blobs, received 2''\<rparr>]"
  by (simp add: batch_results_def example_final_def example_reply_def publishBatch_def
      count_mismatch_def show_nat.simps enumerate_eq_zip upt_rec)

lemma example_first_batch_ok:
  "outcome (publishBatch (publishOpts example_config) [JNum 1, JNum 2]
        [draft example_config ''1'' (JNum 1), draft example_config ''2'' (JNum 2)] example_reply) = None"
  by (simp add: example_reply_def publishBatch_def Let_def)






lemma example_one_terminate:
  "publishStream_live Terminate example_config_one example_replies_one example_events_one =
     Inl (Unhandled ''store down'',
          \<lparr>statementBodies = [], statements = [],
           publishPromises =
             [([JNum 1], [draft example_config ''1'' (JNum 1)]),
              ([JNum 2], [draft example_config ''2'' (JNum 2)])],
           console = []\<rparr>)"
  by (simp add: publishStream_live_def example_events_one_def init_state_def on_data_def draft_def
      example_config_one_def example_config_def js_prop_def batch_results_def js_index_def
      enumerate_eq_zip upt_rec publishBatch_def example_replies_one_def)



end
